theory Spec2Isabelle
  imports Complex_Main "HOL-Library.AList"
begin

section \<open>Backup report notifier: data model\<close>

text \<open>
  A shallow embedding of \<^verbatim>\<open>send_asset_email.py\<close>. Strings are lists of
  characters, a character being a code point below 256; the character tests below are
  Python's on that range (\<^verbatim>\<open>str.isspace\<close>, \<^verbatim>\<open>str.lower\<close>,
  \<^verbatim>\<open>str.isdigit\<close>). Python floats are read as real numbers: rounding of
  double arithmetic is not modelled, the one float failure the script can meet
  (converting an integer beyond the double range) is.

  The typed fields follow the rows that \<^verbatim>\<open>API.py\<close> writes: identifier,
  name, organisation and status are a string or null, the backup timestamp is null,
  a number or a string. JSON \<^verbatim>\<open>true\<close>/\<^verbatim>\<open>false\<close> are the
  numbers 1 and 0 to Python's \<^verbatim>\<open>isinstance(ts, (int, float))\<close>.
\<close>

datatype raw_ts = TsNone | TsNum real | TsStr string

record asset_row =
  AssetId :: "string option"
  AssetName :: "string option"
  Organization :: "string option"
  Status :: "string option"
  lastSuccessfulBackupTimestamp :: raw_ts

datatype health = Success | Warning | Failure

record csv_row =
  Device :: string
  Status_col :: health
  Backup_Date :: string
  Client :: string
  Job :: string

text \<open>One entry of the state file, in the format \<^verbatim>\<open>load_state\<close> documents and
  \<^verbatim>\<open>main\<close> writes: \<^verbatim>\<open>{"ts": <int_epoch_or_null>, "status": <str_or_null>}\<close>.
  On such an entry \<^verbatim>\<open>isinstance(stored, dict)\<close> holds and \<^verbatim>\<open>int(stored_ts)\<close>
  does not raise. The state itself is a Python dict; an association list keeps its
  insertion order. A state file that does not parse to a dict is kept by its text.\<close>

record state_entry =
  ts :: "int option"
  status :: "string option"

type_synonym state = "(string \<times> state_entry) list"

datatype state_file = Missing | Corrupt string | Stored state

datatype data_file = DataMissing | DataUnparsable | DataNotList | DataRows "asset_row list"

datatype exn = OverflowError | ValueError

text \<open>An instant is a \<^verbatim>\<open>datetime\<close> in UTC, counted in microseconds since the
  epoch. The library functions the script calls are parameters:
  \<^verbatim>\<open>datetime.fromtimestamp(sec, tz=utc)\<close>, the ISO parse of lines 112-115
  (\<^verbatim>\<open>fromisoformat\<close>, then \<^verbatim>\<open>replace\<close>/\<^verbatim>\<open>astimezone\<close> to UTC),
  \<^verbatim>\<open>strptime\<close> with a format (read as UTC), and \<^verbatim>\<open>isoformat\<close>. Each
  returns None where the Python raises.\<close>

record pylib =
  fromtimestamp :: "real \<Rightarrow> int option"
  fromisoformat_utc :: "string \<Rightarrow> int option"
  strptime_utc :: "string \<Rightarrow> string \<Rightarrow> int option"
  isoformat :: "int \<Rightarrow> string"

record config =
  DRY_RUN :: bool
  SAMPLE_COUNT :: int
  FIRST_RUN_FULL :: bool

text \<open>What one run finds outside the process: the two files, the clock, and whether
  the CSV write, the SMTP send and the state write go through.\<close>

record world =
  data_file :: data_file
  state_file :: state_file
  clock :: int
  csv_writable :: bool
  smtp_ok :: bool
  state_writable :: bool

section \<open>String helpers\<close>

text \<open>The characters \<^verbatim>\<open>str.strip()\<close> removes: the ASCII white space and
  separators, the next-line control U+0085 and the no-break space U+00A0.\<close>

definition is_space :: "char \<Rightarrow> bool" where
  "is_space c = (c \<in> set [CHR 0x09, CHR 0x0A, CHR 0x0B, CHR 0x0C, CHR 0x0D,
                           CHR 0x1C, CHR 0x1D, CHR 0x1E, CHR 0x1F, CHR 0x20,
                           CHR 0x85, CHR 0xA0])"

definition strip :: "string \<Rightarrow> string" where
  "strip s = rev (dropWhile is_space (rev (dropWhile is_space s)))"

text \<open>The letters \<^verbatim>\<open>str.lower()\<close> changes: A to Z, and U+00C0 to U+00DE
  without the multiplication sign U+00D7.\<close>

definition upper_letters :: string where
  "upper_letters = ''ABCDEFGHIJKLMNOPQRSTUVWXYZ'' @
     [CHR 0xC0, CHR 0xC1, CHR 0xC2, CHR 0xC3, CHR 0xC4, CHR 0xC5, CHR 0xC6, CHR 0xC7,
      CHR 0xC8, CHR 0xC9, CHR 0xCA, CHR 0xCB, CHR 0xCC, CHR 0xCD, CHR 0xCE, CHR 0xCF,
      CHR 0xD0, CHR 0xD1, CHR 0xD2, CHR 0xD3, CHR 0xD4, CHR 0xD5, CHR 0xD6, CHR 0xD8,
      CHR 0xD9, CHR 0xDA, CHR 0xDB, CHR 0xDC, CHR 0xDD, CHR 0xDE]"

definition lower_letters :: string where
  "lower_letters = ''abcdefghijklmnopqrstuvwxyz'' @
     [CHR 0xE0, CHR 0xE1, CHR 0xE2, CHR 0xE3, CHR 0xE4, CHR 0xE5, CHR 0xE6, CHR 0xE7,
      CHR 0xE8, CHR 0xE9, CHR 0xEA, CHR 0xEB, CHR 0xEC, CHR 0xED, CHR 0xEE, CHR 0xEF,
      CHR 0xF0, CHR 0xF1, CHR 0xF2, CHR 0xF3, CHR 0xF4, CHR 0xF5, CHR 0xF6, CHR 0xF8,
      CHR 0xF9, CHR 0xFA, CHR 0xFB, CHR 0xFC, CHR 0xFD, CHR 0xFE]"

definition lower_char :: "char \<Rightarrow> char" where
  "lower_char c =
     (case map_of (zip upper_letters lower_letters) c of Some d \<Rightarrow> d | None \<Rightarrow> c)"

definition lower :: "string \<Rightarrow> string" where
  "lower s = map lower_char s"

definition startswith :: "string \<Rightarrow> string \<Rightarrow> bool" where
  "startswith s p = (take (length p) s = p)"

definition endswith :: "string \<Rightarrow> string \<Rightarrow> bool" where
  "endswith s p = (length p \<le> length s \<and> drop (length s - length p) s = p)"

text \<open>Python's \<^verbatim>\<open>needle in hay\<close> on strings.\<close>

fun contains :: "string \<Rightarrow> string \<Rightarrow> bool" where
  "contains needle [] = (needle = [])"
| "contains needle (c # cs) = (startswith (c # cs) needle \<or> contains needle cs)"

text \<open>\<^verbatim>\<open>str.isdigit()\<close> accepts the digits 0 to 9 and the superscripts
  U+00B2, U+00B3 and U+00B9; \<^verbatim>\<open>int(s)\<close> reads the digits 0 to 9 and raises
  ValueError on a superscript.\<close>

definition isdigit :: "string \<Rightarrow> bool" where
  "isdigit s =
     (s \<noteq> [] \<and>
      list_all (\<lambda>c. c \<in> set ''0123456789'' \<or> c \<in> set [CHR 0xB2, CHR 0xB3, CHR 0xB9]) s)"

definition decimal_digits :: "string \<Rightarrow> bool" where
  "decimal_digits s = list_all (\<lambda>c. c \<in> set ''0123456789'') s"

definition digit_val :: "char \<Rightarrow> int" where
  "digit_val c =
     (case map_of (zip ''0123456789'' [0, 1, 2, 3, 4, 5, 6, 7, 8, 9]) c of
        Some d \<Rightarrow> d | None \<Rightarrow> 0)"

definition int_of_digits :: "string \<Rightarrow> int" where
  "int_of_digits s = foldl (\<lambda>n c. 10 * n + digit_val c) 0 s"

text \<open>\<^verbatim>\<open>x or ""\<close> on a string or null.\<close>

definition or_empty :: "string option \<Rightarrow> string" where
  "or_empty x = (case x of None \<Rightarrow> [] | Some s \<Rightarrow> s)"

section \<open>Timestamp normalizer\<close>

text \<open>\<^verbatim>\<open>float(n)\<close> and \<^verbatim>\<open>n / 1000.0\<close> raise OverflowError on an integer
  that rounds beyond the largest double. Neither line 85 nor lines 99-101 stand in a
  \<^verbatim>\<open>try\<close>: the exception leaves \<^verbatim>\<open>_parse_to_utc_datetime\<close>.\<close>

definition float_overflows :: "real \<Rightarrow> bool" where
  "float_overflows x = (\<bar>x\<bar> \<ge> 2 ^ 1024 - 2 ^ 970)"

definition iso_fallback_formats :: "string list" where
  "iso_fallback_formats = [''%Y-%m-%dT%H:%M:%S.%f'', ''%Y-%m-%dT%H:%M:%S'', ''%Y-%m-%d %H:%M:%S'']"

fun first_strptime :: "pylib \<Rightarrow> string \<Rightarrow> string list \<Rightarrow> int option" where
  "first_strptime lib s [] = None"
| "first_strptime lib s (fmt # fmts) =
     (case strptime_utc lib s fmt of Some dt \<Rightarrow> Some dt | None \<Rightarrow> first_strptime lib s fmts)"

definition parse_iso_like :: "pylib \<Rightarrow> string \<Rightarrow> int option" where
  "parse_iso_like lib s =
     (let iso = (if endswith s ''Z'' then butlast s @ ''+00:00'' else s) in
      case fromisoformat_utc lib iso of
        Some dt \<Rightarrow> Some dt
      | None \<Rightarrow> first_strptime lib s iso_fallback_formats)"

definition parse_to_utc_datetime :: "pylib \<Rightarrow> raw_ts \<Rightarrow> exn + int option" where
  "parse_to_utc_datetime lib raw =
     (case raw of
        TsNone \<Rightarrow> Inr None
      | TsNum x \<Rightarrow>
          if float_overflows x then Inl OverflowError
          else (let sec = x; sec = (if sec > 10 ^ 12 then sec / 1000 else sec)
                in Inr (fromtimestamp lib sec))
      | TsStr t \<Rightarrow>
          (let s = strip t in
           if s = [] then Inr None
           else if isdigit s then
             (if \<not> decimal_digits s then Inl ValueError
              else
               (let n = int_of_digits s in
                if real_of_int n > 10 ^ 12 then
                  (if float_overflows (real_of_int n) then Inl OverflowError
                   else Inr (fromtimestamp lib (real_of_int n / 1000)))
                else Inr (fromtimestamp lib (real_of_int n))))
           else Inr (parse_iso_like lib s)))"

text \<open>\<^verbatim>\<open>int(dt.timestamp())\<close>: seconds since the epoch, truncated towards zero.\<close>

definition py_int :: "real \<Rightarrow> int" where
  "py_int x = (if 0 \<le> x then \<lfloor>x\<rfloor> else \<lceil>x\<rceil>)"

definition timestamp :: "int \<Rightarrow> real" where
  "timestamp dt = real_of_int dt / 1000000"

definition epoch_seconds_or_none :: "pylib \<Rightarrow> raw_ts \<Rightarrow> exn + int option" where
  "epoch_seconds_or_none lib dt_or_ts =
     (case dt_or_ts of
        TsNone \<Rightarrow> Inr None
      | _ \<Rightarrow>
          (case parse_to_utc_datetime lib dt_or_ts of
             Inl e \<Rightarrow> Inl e
           | Inr None \<Rightarrow> Inr None
           | Inr (Some dt) \<Rightarrow> Inr (Some (py_int (timestamp dt)))))"

section \<open>Status classifier\<close>

definition total_seconds :: "int \<Rightarrow> real" where
  "total_seconds delta = real_of_int delta / 1000000"

definition compute_backup_status :: "pylib \<Rightarrow> int \<Rightarrow> asset_row \<Rightarrow> exn + health" where
  "compute_backup_status lib now_clock row =
     (let status_raw = Status row in
      if (case status_raw of None \<Rightarrow> False
          | Some s \<Rightarrow> s \<noteq> [] \<and> contains ''in progress'' (lower s))
      then Inr Warning
      else
        (case parse_to_utc_datetime lib (lastSuccessfulBackupTimestamp row) of
           Inl e \<Rightarrow> Inl e
         | Inr (Some dt_utc) \<Rightarrow>
             (let hours = total_seconds (now_clock - dt_utc) / 3600 in
              if hours \<le> 12 then Inr Success
              else if 12 < hours \<and> hours \<le> 23 then Inr Warning
              else Inr Failure)
         | Inr None \<Rightarrow> Inr Failure))"

section \<open>CSV rows\<close>

definition JOB_NAME :: string where
  "JOB_NAME = ''EPBv2''"

text \<open>\<^verbatim>\<open>.replace("+00:00", "Z")\<close>: every occurrence, left to right.\<close>

fun replace_utc_offset :: "string \<Rightarrow> string" where
  "replace_utc_offset [] = []"
| "replace_utc_offset (c # cs) =
     (if startswith (c # cs) ''+00:00'' then ''Z'' @ replace_utc_offset (drop 5 cs)
      else c # replace_utc_offset cs)"

definition build_csv_row :: "pylib \<Rightarrow> int \<Rightarrow> asset_row \<Rightarrow> exn + csv_row" where
  "build_csv_row lib now_clock r =
     (let device = or_empty (AssetName r);
          backup_ts = lastSuccessfulBackupTimestamp r
      in case parse_to_utc_datetime lib backup_ts of
           Inl e \<Rightarrow> Inl e
         | Inr dt \<Rightarrow>
            (let backup_date = (case dt of Some d \<Rightarrow> replace_utc_offset (isoformat lib d)
                                | None \<Rightarrow> []);
                 client = or_empty (Organization r)
             in case compute_backup_status lib now_clock r of
                  Inl e \<Rightarrow> Inl e
                | Inr backup_status \<Rightarrow>
                    Inr \<lparr>Device = device, Status_col = backup_status,
                         Backup_Date = backup_date, Client = client, Job = JOB_NAME\<rparr>))"

fun build_csv_rows :: "pylib \<Rightarrow> int \<Rightarrow> asset_row list \<Rightarrow> exn + csv_row list" where
  "build_csv_rows lib now_clock [] = Inr []"
| "build_csv_rows lib now_clock (r # rs) =
     (case build_csv_row lib now_clock r of
        Inl e \<Rightarrow> Inl e
      | Inr c \<Rightarrow>
         (case build_csv_rows lib now_clock rs of
            Inl e \<Rightarrow> Inl e
          | Inr cs \<Rightarrow> Inr (c # cs)))"

section \<open>State store\<close>

definition load_state :: "state_file \<Rightarrow> state" where
  "load_state f = (case f of Missing \<Rightarrow> [] | Corrupt _ \<Rightarrow> [] | Stored j \<Rightarrow> j)"

text \<open>\<^verbatim>\<open>save_state\<close> writes a temporary file and renames it; a failure is printed
  as a warning and the state file stays as it was.\<close>

definition save_state :: "world \<Rightarrow> state \<Rightarrow> state_file" where
  "save_state w st = (if state_writable w then Stored st else state_file w)"

section \<open>One run\<close>

datatype run_mode = FULL | INCR

datatype dispatch = NotAttempted | Simulated | Sent | SendFailed

text \<open>What a run leaves behind: the exit code of the process, the state file, what
  happened to the notification, the rows of the CSV (\<^verbatim>\<open>rows_for_csv\<close>), the mode
  once it is decided, and the exception, if one left \<^verbatim>\<open>main\<close> uncaught.\<close>

record run_result =
  exit_code :: int
  state_file_after :: state_file
  dispatched :: dispatch
  report :: "csv_row list"
  mode :: "run_mode option"
  uncaught :: "exn option"

text \<open>\<^verbatim>\<open>str(r.get("AssetId") or "")\<close>.\<close>

definition asset_key :: "asset_row \<Rightarrow> string" where
  "asset_key r = or_empty (AssetId r)"

text \<open>\<^verbatim>\<open>rows[:n]\<close>; a negative \<open>n\<close> counts from the end.\<close>

definition slice_to :: "'a list \<Rightarrow> int \<Rightarrow> 'a list" where
  "slice_to xs n = (if 0 \<le> n then take (nat n) xs else take (length xs - nat (- n)) xs)"

definition hour :: "int \<Rightarrow> int" where
  "hour dt = (dt div 3600000000) mod 24"

text \<open>Lines 319-341: the send flag of one row in an incremental run.\<close>

definition send_flag :: "pylib \<Rightarrow> state \<Rightarrow> asset_row \<Rightarrow> exn + bool" where
  "send_flag lib st r =
     (let aid = asset_key r in
      case epoch_seconds_or_none lib (lastSuccessfulBackupTimestamp r) of
        Inl e \<Rightarrow> Inl e
      | Inr current_ts_epoch \<Rightarrow>
         (let current_status = strip (or_empty (Status r));
              stored = map_of st aid;
              stored_ts = (case stored of None \<Rightarrow> None | Some en \<Rightarrow> ts en);
              stored_status = (case stored of None \<Rightarrow> None | Some en \<Rightarrow> status en);
              flag = (case current_ts_epoch of
                        None \<Rightarrow> False
                      | Some cur \<Rightarrow> (case stored_ts of None \<Rightarrow> True | Some old \<Rightarrow> cur > old));
              flag = (if \<not> flag \<and> current_status \<noteq> [] \<and> current_status \<noteq> or_empty stored_status
                      then True else flag)
          in Inr flag))"

text \<open>Lines 317-353: the body of the incremental loop on one row. An exception is
  caught per row and counted.\<close>

definition incremental_row :: "pylib \<Rightarrow> int \<Rightarrow> state \<Rightarrow> asset_row \<Rightarrow> exn + csv_row option" where
  "incremental_row lib now_clock st r =
     (case send_flag lib st r of
        Inl e \<Rightarrow> Inl e
      | Inr False \<Rightarrow> Inr None
      | Inr True \<Rightarrow>
         (case build_csv_row lib now_clock r of
            Inl e \<Rightarrow> Inl e
          | Inr c \<Rightarrow> Inr (Some c)))"

text \<open>The loop returns \<^verbatim>\<open>rows_for_csv\<close>, \<^verbatim>\<open>changed_asset_ids\<close> and
  \<^verbatim>\<open>failed\<close>, each in the order of the rows.\<close>

fun incremental_rows ::
  "pylib \<Rightarrow> int \<Rightarrow> state \<Rightarrow> asset_row list \<Rightarrow> csv_row list \<times> string list \<times> nat" where
  "incremental_rows lib now_clock st [] = ([], [], 0)"
| "incremental_rows lib now_clock st (r # rs) =
     (case incremental_rows lib now_clock st rs of
        (rows_for_csv, changed_asset_ids, failed) \<Rightarrow>
          (case incremental_row lib now_clock st r of
             Inl e \<Rightarrow> (rows_for_csv, changed_asset_ids, Suc failed)
           | Inr None \<Rightarrow> (rows_for_csv, changed_asset_ids, failed)
           | Inr (Some c) \<Rightarrow> (c # rows_for_csv, asset_key r # changed_asset_ids, failed)))"

text \<open>Lines 307-353. The full branch builds its rows outside any \<^verbatim>\<open>try\<close>.\<close>

definition reconcile ::
  "pylib \<Rightarrow> int \<Rightarrow> state \<Rightarrow> bool \<Rightarrow> asset_row list \<Rightarrow> exn + csv_row list \<times> string list" where
  "reconcile lib now_clock st is_full to_process =
     (if is_full then
        (case build_csv_rows lib now_clock to_process of
           Inl e \<Rightarrow> Inl e
         | Inr csv_rows \<Rightarrow> Inr (csv_rows, map asset_key to_process))
      else
        (case incremental_rows lib now_clock st to_process of
           (rows_for_csv, changed_asset_ids, failed) \<Rightarrow> Inr (rows_for_csv, changed_asset_ids)))"

text \<open>Lines 402-407 and 414-419: the entry written for one row.\<close>

definition new_entry :: "pylib \<Rightarrow> asset_row \<Rightarrow> exn + state_entry" where
  "new_entry lib r =
     (case epoch_seconds_or_none lib (lastSuccessfulBackupTimestamp r) of
        Inl e \<Rightarrow> Inl e
      | Inr current_ts_epoch \<Rightarrow>
         (let current_status = strip (or_empty (Status r))
          in Inr \<lparr>ts = current_ts_epoch,
                  status = (if current_status = [] then None else Some current_status)\<rparr>))"

fun update_full :: "pylib \<Rightarrow> asset_row list \<Rightarrow> state \<Rightarrow> exn + state" where
  "update_full lib [] new_state = Inr new_state"
| "update_full lib (r # rs) new_state =
     (case new_entry lib r of
        Inl e \<Rightarrow> Inl e
      | Inr en \<Rightarrow> update_full lib rs (AList.update (asset_key r) en new_state))"

fun update_changed :: "pylib \<Rightarrow> string list \<Rightarrow> asset_row list \<Rightarrow> state \<Rightarrow> exn + state" where
  "update_changed lib changed_asset_ids [] new_state = Inr new_state"
| "update_changed lib changed_asset_ids (r # rs) new_state =
     (if asset_key r \<in> set changed_asset_ids then
        (case new_entry lib r of
           Inl e \<Rightarrow> Inl e
         | Inr en \<Rightarrow>
             update_changed lib changed_asset_ids rs (AList.update (asset_key r) en new_state))
      else update_changed lib changed_asset_ids rs new_state)"

definition stop :: "world \<Rightarrow> int \<Rightarrow> run_mode option \<Rightarrow> csv_row list \<Rightarrow> run_result" where
  "stop w code m rows =
     \<lparr>exit_code = code, state_file_after = state_file w, dispatched = NotAttempted,
      report = rows, mode = m, uncaught = None\<rparr>"

text \<open>Lines 355-441: from the rows to the exit code. The state is written only
  after a successful (or simulated) send, and the last line returns 0 either way.\<close>

definition deliver ::
  "config \<Rightarrow> pylib \<Rightarrow> world \<Rightarrow> bool \<Rightarrow> asset_row list \<Rightarrow> state \<Rightarrow>
   csv_row list \<Rightarrow> string list \<Rightarrow> run_result" where
  "deliver cfg lib w is_full to_process new_state rows_for_csv changed_asset_ids =
     (let m = Some (if is_full then FULL else INCR) in
      if rows_for_csv = [] then stop w 0 m []
      else if \<not> csv_writable w then stop w 1 m rows_for_csv
      else
       (let success = (if DRY_RUN cfg then True else smtp_ok w);
            outcome = (if DRY_RUN cfg then Simulated
                       else if smtp_ok w then Sent else SendFailed)
        in
        if success then
          (case (if is_full then update_full lib to_process new_state
                 else update_changed lib changed_asset_ids to_process new_state) of
             Inl e \<Rightarrow>
               (stop w 1 m rows_for_csv)\<lparr>dispatched := outcome, uncaught := Some e\<rparr>
           | Inr new_state' \<Rightarrow>
               (stop w 0 m rows_for_csv)
                 \<lparr>state_file_after := save_state w new_state', dispatched := outcome\<rparr>)
        else (stop w 0 m rows_for_csv)\<lparr>dispatched := outcome\<rparr>))"

text \<open>Lines 278-305: the rows to process and the mode.\<close>

definition to_process_of :: "config \<Rightarrow> asset_row list \<Rightarrow> asset_row list" where
  "to_process_of cfg rows = (if SAMPLE_COUNT cfg = 0 then rows else slice_to rows (SAMPLE_COUNT cfg))"

definition main :: "config \<Rightarrow> pylib \<Rightarrow> world \<Rightarrow> run_result" where
  "main cfg lib w =
     (case data_file w of
        DataMissing \<Rightarrow> stop w 1 None []
      | DataUnparsable \<Rightarrow> stop w 1 None []
      | DataNotList \<Rightarrow> stop w 1 None []
      | DataRows rows \<Rightarrow>
         (let to_process = to_process_of cfg rows;
              now_utc = clock w;
              is_daily_full_run = (hour now_utc = 21);
              st = load_state (state_file w);
              initial_run = (st = [])
          in
          if initial_run \<and> \<not> FIRST_RUN_FULL cfg then
            (stop w 0 None [])\<lparr>state_file_after := save_state w []\<rparr>
          else
           (let new_state = st;
                is_full = (if initial_run \<and> FIRST_RUN_FULL cfg then True else is_daily_full_run)
            in
            case reconcile lib now_utc st is_full to_process of
              Inl e \<Rightarrow> (stop w 1 (Some (if is_full then FULL else INCR)) [])\<lparr>uncaught := Some e\<rparr>
            | Inr (rows_for_csv, changed_asset_ids) \<Rightarrow>
                deliver cfg lib w is_full to_process new_state rows_for_csv changed_asset_ids)))"

section \<open>A library instance for the numeric path\<close>

text \<open>\<^verbatim>\<open>datetime.fromtimestamp(sec, tz=timezone.utc)\<close> of CPython on a 64-bit POSIX
  platform rounds to the microsecond, half to even, and raises outside the years
  1 to 9999; \<^verbatim>\<open>isoformat\<close> prints the proleptic Gregorian date and the time of
  day, with the microseconds when there are any, and the offset \<^verbatim>\<open>+00:00\<close>. The
  instance parses no text: it serves at concrete inputs whose timestamps are numbers.\<close>

definition round_half_even :: "real \<Rightarrow> int" where
  "round_half_even x =
     (let f = \<lfloor>x\<rfloor>; d = x - real_of_int f in
      if d < 1 / 2 then f else if 1 / 2 < d then f + 1 else if even f then f else f + 1)"

definition posix_fromtimestamp :: "real \<Rightarrow> int option" where
  "posix_fromtimestamp sec =
     (let us = round_half_even (sec * 1000000) in
      if - 62135596800000000 \<le> us \<and> us \<le> 253402300799999999 then Some us else None)"

definition digit_char :: "int \<Rightarrow> char" where
  "digit_char d = ''0123456789'' ! nat d"

definition pad2 :: "int \<Rightarrow> string" where
  "pad2 n = [digit_char (n div 10 mod 10), digit_char (n mod 10)]"

definition pad4 :: "int \<Rightarrow> string" where
  "pad4 n = pad2 (n div 100 mod 100) @ pad2 (n mod 100)"

definition pad6 :: "int \<Rightarrow> string" where
  "pad6 n = pad2 (n div 10000 mod 100) @ pad4 (n mod 10000)"

text \<open>Year, month and day of a count of days since 1970-01-01, by 400-year eras
  that start on a first of March: the year of the era from the day of the era, the
  day of the year, and the month counted from March.\<close>

definition year_of_era :: "int \<Rightarrow> int" where
  "year_of_era doe = (doe - doe div 1460 + doe div 36524 - doe div 146096) div 365"

definition day_of_year :: "int \<Rightarrow> int \<Rightarrow> int" where
  "day_of_year doe yoe = doe - (365 * yoe + yoe div 4 - yoe div 100)"

definition month_from_march :: "int \<Rightarrow> int" where
  "month_from_march doy = (5 * doy + 2) div 153"

definition civil_of_month :: "int \<Rightarrow> int \<Rightarrow> int \<Rightarrow> int \<Rightarrow> int \<times> int \<times> int" where
  "civil_of_month era yoe d m = (yoe + era * 400 + (if m \<le> 2 then 1 else 0), m, d)"

definition civil_of_day :: "int \<Rightarrow> int \<Rightarrow> int \<Rightarrow> int \<Rightarrow> int \<times> int \<times> int" where
  "civil_of_day era yoe doy mp =
     civil_of_month era yoe (doy - (153 * mp + 2) div 5 + 1) (if mp < 10 then mp + 3 else mp - 9)"

definition civil_of_year :: "int \<Rightarrow> int \<Rightarrow> int \<Rightarrow> int \<times> int \<times> int" where
  "civil_of_year era doe yoe =
     civil_of_day era yoe (day_of_year doe yoe) (month_from_march (day_of_year doe yoe))"

definition civil_from_days :: "int \<Rightarrow> int \<times> int \<times> int" where
  "civil_from_days z =
     civil_of_year ((z + 719468) div 146097) ((z + 719468) mod 146097)
       (year_of_era ((z + 719468) mod 146097))"

fun format_date :: "int \<times> int \<times> int \<Rightarrow> string" where
  "format_date (y, m, d) = pad4 y @ ''-'' @ pad2 m @ ''-'' @ pad2 d"

definition format_time :: "int \<Rightarrow> string" where
  "format_time secs =
     pad2 (secs div 3600) @ '':'' @ pad2 (secs div 60 mod 60) @ '':'' @ pad2 (secs mod 60)"

definition format_microseconds :: "int \<Rightarrow> string" where
  "format_microseconds us = (if us = 0 then [] else ''.'' @ pad6 us)"

definition posix_isoformat :: "int \<Rightarrow> string" where
  "posix_isoformat dt =
     format_date (civil_from_days (dt div 1000000 div 86400)) @ ''T'' @
     format_time (dt div 1000000 mod 86400) @
     format_microseconds (dt mod 1000000) @ ''+00:00''"

definition numeric_lib :: pylib where
  "numeric_lib =
     \<lparr>fromtimestamp = posix_fromtimestamp, fromisoformat_utc = (\<lambda>_. None),
      strptime_utc = (\<lambda>_ _. None), isoformat = posix_isoformat\<rparr>"

section \<open>The specification's wording\<close>

text \<open>The predicates below follow the specification's sentences, to be compared
  with the functions above. The current instant of a row is the whole number of
  epoch seconds the run compares, absent when the timestamp does not normalise.\<close>

definition normalises :: "pylib \<Rightarrow> asset_row \<Rightarrow> bool" where
  "normalises lib r =
     (case parse_to_utc_datetime lib (lastSuccessfulBackupTimestamp r) of
        Inl _ \<Rightarrow> False | Inr _ \<Rightarrow> True)"

definition current_epoch :: "pylib \<Rightarrow> asset_row \<Rightarrow> int option" where
  "current_epoch lib r =
     (case epoch_seconds_or_none lib (lastSuccessfulBackupTimestamp r) of
        Inl _ \<Rightarrow> None | Inr c \<Rightarrow> c)"

definition prior_status :: "state \<Rightarrow> asset_row \<Rightarrow> string" where
  "prior_status st r =
     (case map_of st (asset_key r) of None \<Rightarrow> [] | Some en \<Rightarrow> or_empty (status en))"

text \<open>Branch (a) of the send flag: the asset has an instant, and the prior entry is
  absent, or its instant is absent, or the current instant is strictly newer.\<close>

definition instant_advanced :: "pylib \<Rightarrow> state \<Rightarrow> asset_row \<Rightarrow> bool" where
  "instant_advanced lib st r =
     (case current_epoch lib r of
        None \<Rightarrow> False
      | Some cur \<Rightarrow>
         (case map_of st (asset_key r) of
            None \<Rightarrow> True
          | Some en \<Rightarrow> (case ts en of None \<Rightarrow> True | Some old \<Rightarrow> old < cur)))"

text \<open>The send flag as the specification words it: branch (b) compares the raw
  status string.\<close>

definition spec_send_flag :: "pylib \<Rightarrow> state \<Rightarrow> asset_row \<Rightarrow> bool" where
  "spec_send_flag lib st r =
     (instant_advanced lib st r \<or>
      (or_empty (Status r) \<noteq> [] \<and> or_empty (Status r) \<noteq> prior_status st r))"

text \<open>The send flag with the status trimmed of surrounding whitespace, as the run
  compares and stores it.\<close>

definition trimmed_send_flag :: "pylib \<Rightarrow> state \<Rightarrow> asset_row \<Rightarrow> bool" where
  "trimmed_send_flag lib st r =
     (instant_advanced lib st r \<or>
      (strip (or_empty (Status r)) \<noteq> [] \<and> strip (or_empty (Status r)) \<noteq> prior_status st r))"

definition included :: "pylib \<Rightarrow> state \<Rightarrow> asset_row \<Rightarrow> bool" where
  "included lib st r = (normalises lib r \<and> trimmed_send_flag lib st r)"

text \<open>The entry a successful run stores for a row.\<close>

definition entry_of :: "pylib \<Rightarrow> asset_row \<Rightarrow> state_entry" where
  "entry_of lib r =
     \<lparr>ts = current_epoch lib r,
      status = (if strip (or_empty (Status r)) = [] then None
                else Some (strip (or_empty (Status r))))\<rparr>"

text \<open>The age of a backup in hours, possibly negative.\<close>

definition age_hours :: "int \<Rightarrow> int \<Rightarrow> real" where
  "age_hours now_clock dt = real_of_int (now_clock - dt) / 3600000000"

text \<open>A status that contains "in progress" in any mix of cases.\<close>

definition mentions_in_progress :: "string \<Rightarrow> bool" where
  "mentions_in_progress s = (\<exists>u v x. s = u @ v @ x \<and> lower v = ''in progress'')"

definition spec_classify :: "string option \<Rightarrow> int option \<Rightarrow> int \<Rightarrow> health" where
  "spec_classify raw_status instant now_clock =
     (if (case raw_status of None \<Rightarrow> False | Some s \<Rightarrow> s \<noteq> [] \<and> mentions_in_progress s)
      then Warning
      else (case instant of
              None \<Rightarrow> Failure
            | Some dt \<Rightarrow>
               if age_hours now_clock dt \<le> 12 then Success
               else if age_hours now_clock dt \<le> 23 then Warning
               else Failure))"

text \<open>The seconds a numeric value stands for, read by magnitude as the
  specification words it, and by value as line 86 compares it.\<close>

definition seconds_by_magnitude :: "real \<Rightarrow> real" where
  "seconds_by_magnitude x = (if \<bar>x\<bar> > 10 ^ 12 then x / 1000 else x)"

definition seconds_by_value :: "real \<Rightarrow> real" where
  "seconds_by_value x = (if x > 10 ^ 12 then x / 1000 else x)"

section \<open>Concrete runs\<close>

definition asset_a1 :: asset_row where
  "asset_a1 =
     \<lparr>AssetId = Some ''A1'', AssetName = Some ''host1'', Organization = Some ''Acme'',
      Status = Some ''Online'', lastSuccessfulBackupTimestamp = TsNum 1700000000\<rparr>"

definition asset_a2 :: asset_row where
  "asset_a2 =
     \<lparr>AssetId = Some ''A2'', AssetName = Some ''host2'', Organization = Some ''Acme'',
      Status = Some ''Online'', lastSuccessfulBackupTimestamp = TsNum 1700000500\<rparr>"

text \<open>The status of \<open>asset_a1\<close> with a leading blank.\<close>

definition asset_a1_padded :: asset_row where
  "asset_a1_padded = asset_a1\<lparr>Status := Some '' Online''\<rparr>"

text \<open>Two rows that carry the identifier \<open>A1\<close>: one newer than the stored instant,
  one older.\<close>

definition asset_a1_newer :: asset_row where
  "asset_a1_newer = asset_a1\<lparr>lastSuccessfulBackupTimestamp := TsNum 1700000500\<rparr>"

definition asset_a1_older :: asset_row where
  "asset_a1_older = asset_a1\<lparr>lastSuccessfulBackupTimestamp := TsNum 1699999000\<rparr>"

definition entry_a1 :: state_entry where
  "entry_a1 = \<lparr>ts = Some 1700000000, status = Some ''Online''\<rparr>"

definition entry_old :: state_entry where
  "entry_old = \<lparr>ts = Some 1600000000, status = Some ''Online''\<rparr>"

definition cfg_source :: config where
  "cfg_source = \<lparr>DRY_RUN = True, SAMPLE_COUNT = 0, FIRST_RUN_FULL = True\<rparr>"

definition cfg_live :: config where
  "cfg_live = \<lparr>DRY_RUN = False, SAMPLE_COUNT = 0, FIRST_RUN_FULL = True\<rparr>"

definition cfg_no_seed :: config where
  "cfg_no_seed = \<lparr>DRY_RUN = True, SAMPLE_COUNT = 0, FIRST_RUN_FULL = False\<rparr>"

definition cfg_sample :: config where
  "cfg_sample = \<lparr>DRY_RUN = True, SAMPLE_COUNT = 1, FIRST_RUN_FULL = True\<rparr>"

text \<open>2023-11-14 21:13:20 UTC and 23:13:20 UTC, in microseconds.\<close>

definition at_21h :: int where
  "at_21h = 1699996400000000"

definition at_23h :: int where
  "at_23h = 1700003600000000"

definition world_fresh :: world where
  "world_fresh =
     \<lparr>data_file = DataRows [asset_a1], state_file = Missing, clock = at_23h,
      csv_writable = True, smtp_ok = True, state_writable = True\<rparr>"

definition world_smtp_down :: world where
  "world_smtp_down = world_fresh\<lparr>smtp_ok := False\<rparr>"

definition world_stale_key :: world where
  "world_stale_key =
     world_fresh\<lparr>state_file := Stored [(''OLD'', entry_old)], clock := at_21h\<rparr>"

definition world_known :: world where
  "world_known =
     world_fresh\<lparr>data_file := DataRows [asset_a1, asset_a2],
                  state_file := Stored [(''A1'', entry_a1)]\<rparr>"

definition world_padded :: world where
  "world_padded =
     world_fresh\<lparr>data_file := DataRows [asset_a1_padded],
                  state_file := Stored [(''A1'', entry_a1)]\<rparr>"

definition world_unchanged :: world where
  "world_unchanged = world_fresh\<lparr>state_file := Stored [(''A1'', entry_a1)]\<rparr>"

definition world_duplicate :: world where
  "world_duplicate =
     world_fresh\<lparr>data_file := DataRows [asset_a1_newer, asset_a1_older],
                  state_file := Stored [(''A1'', entry_a1)]\<rparr>"

definition world_two_rows :: world where
  "world_two_rows = world_fresh\<lparr>data_file := DataRows [asset_a1, asset_a2]\<rparr>"

section \<open>Evaluation of concrete runs\<close>

lemmas string_defs =
  is_space_def strip_def lower_def lower_char_def upper_letters_def lower_letters_def
  startswith_def endswith_def isdigit_def decimal_digits_def digit_val_def
  int_of_digits_def or_empty_def

lemmas normalizer_defs =
  float_overflows_def parse_to_utc_datetime_def py_int_def timestamp_def
  epoch_seconds_or_none_def round_half_even_def posix_fromtimestamp_def numeric_lib_def
  digit_char_def pad2_def pad4_def pad6_def year_of_era_def day_of_year_def
  month_from_march_def civil_of_month_def civil_of_day_def civil_of_year_def
  civil_from_days_def format_time_def format_microseconds_def posix_isoformat_def

lemmas run_defs =
  total_seconds_def compute_backup_status_def JOB_NAME_def build_csv_row_def
  load_state_def save_state_def asset_key_def slice_to_def hour_def send_flag_def
  incremental_row_def reconcile_def new_entry_def stop_def deliver_def
  to_process_of_def main_def

lemmas example_defs =
  asset_a1_def asset_a2_def asset_a1_padded_def asset_a1_newer_def asset_a1_older_def
  entry_a1_def entry_old_def
  cfg_source_def cfg_live_def cfg_no_seed_def cfg_sample_def at_21h_def at_23h_def
  world_fresh_def world_smtp_down_def world_stale_key_def world_known_def
  world_padded_def world_unchanged_def world_duplicate_def world_two_rows_def

lemma strip_examples:
  "strip '' Online '' = ''Online''"
  "strip (CHR 0xA0 # ''Online'' @ [CHR 0x85]) = ''Online''"
  "strip [CHR 0x09, CHR 0xA0] = []"
  by (simp_all add: string_defs)

lemma lower_examples:
  "lower ''Backup In Progress'' = ''backup in progress''"
  "lower [CHR 0xC9, CHR 0xD7, CHR 0xDF] = [CHR 0xE9, CHR 0xD7, CHR 0xDF]"
  by (simp_all add: string_defs)

lemma digit_string_examples:
  "parse_to_utc_datetime numeric_lib (TsStr ''1700000000'') = Inr (Some 1700000000000000)"
  "parse_to_utc_datetime numeric_lib (TsStr ''1700000000000'') = Inr (Some 1700000000000000)"
  "parse_to_utc_datetime numeric_lib (TsStr [CHR ''1'', CHR 0xB2]) = Inl ValueError"
  "parse_to_utc_datetime numeric_lib (TsStr ''12a'') = Inr None"
  by (simp_all add: string_defs normalizer_defs parse_iso_like_def iso_fallback_formats_def)

lemma posix_isoformat_examples:
  "posix_isoformat 1700000000000000 = ''2023-11-14T22:13:20+00:00''"
  "posix_isoformat 1700000500000000 = ''2023-11-14T22:21:40+00:00''"
  "posix_isoformat (- 2000000000000000) = ''1906-08-16T20:26:40+00:00''"
  "posix_isoformat 1700000000250000 = ''2023-11-14T22:13:20.250000+00:00''"
  by (simp_all add: normalizer_defs)

lemma run_fresh:
  "main cfg_source numeric_lib world_fresh =
     \<lparr>exit_code = 0, state_file_after = Stored [(''A1'', entry_a1)], dispatched = Simulated,
      report = [\<lparr>Device = ''host1'', Status_col = Success,
                 Backup_Date = ''2023-11-14T22:13:20Z'',
                 Client = ''Acme'', Job = ''EPBv2''\<rparr>],
      mode = Some FULL, uncaught = None\<rparr>"
  by (simp add: string_defs normalizer_defs run_defs example_defs)

lemma run_smtp_down:
  "main cfg_live numeric_lib world_smtp_down =
     \<lparr>exit_code = 0, state_file_after = Missing, dispatched = SendFailed,
      report = [\<lparr>Device = ''host1'', Status_col = Success,
                 Backup_Date = ''2023-11-14T22:13:20Z'',
                 Client = ''Acme'', Job = ''EPBv2''\<rparr>],
      mode = Some FULL, uncaught = None\<rparr>"
  by (simp add: string_defs normalizer_defs run_defs example_defs)


lemma run_known:
  "main cfg_source numeric_lib world_known =
     \<lparr>exit_code = 0,
      state_file_after = Stored [(''A1'', entry_a1),
         (''A2'', \<lparr>ts = Some 1700000500, status = Some ''Online''\<rparr>)],
      dispatched = Simulated,
      report = [\<lparr>Device = ''host2'', Status_col = Success,
                 Backup_Date = ''2023-11-14T22:21:40Z'',
                 Client = ''Acme'', Job = ''EPBv2''\<rparr>],
      mode = Some INCR, uncaught = None\<rparr>"
  by (simp add: string_defs normalizer_defs run_defs example_defs)

lemma run_padded:
  "main cfg_source numeric_lib world_padded =
     \<lparr>exit_code = 0, state_file_after = Stored [(''A1'', entry_a1)],
      dispatched = NotAttempted, report = [], mode = Some INCR, uncaught = None\<rparr>"
  by (simp add: string_defs normalizer_defs run_defs example_defs)

lemma run_unchanged:
  "main cfg_source numeric_lib world_unchanged =
     \<lparr>exit_code = 0, state_file_after = Stored [(''A1'', entry_a1)],
      dispatched = NotAttempted, report = [], mode = Some INCR, uncaught = None\<rparr>"
  by (simp add: string_defs normalizer_defs run_defs example_defs)

lemma run_duplicate:
  "main cfg_source numeric_lib world_duplicate =
     \<lparr>exit_code = 0,
      state_file_after = Stored [(''A1'', \<lparr>ts = Some 1699999000, status = Some ''Online''\<rparr>)],
      dispatched = Simulated,
      report = [\<lparr>Device = ''host1'', Status_col = Success,
                 Backup_Date = ''2023-11-14T22:21:40Z'',
                 Client = ''Acme'', Job = ''EPBv2''\<rparr>],
      mode = Some INCR, uncaught = None\<rparr>"
  by (simp add: string_defs normalizer_defs run_defs example_defs)

lemma run_sample:
  "main cfg_sample numeric_lib world_two_rows =
     \<lparr>exit_code = 0, state_file_after = Stored [(''A1'', entry_a1)], dispatched = Simulated,
      report = [\<lparr>Device = ''host1'', Status_col = Success,
                 Backup_Date = ''2023-11-14T22:13:20Z'',
                 Client = ''Acme'', Job = ''EPBv2''\<rparr>],
      mode = Some FULL, uncaught = None\<rparr>"
  by (simp add: string_defs normalizer_defs run_defs example_defs)

lemma run_no_seed:
  "main cfg_no_seed numeric_lib world_fresh =
     \<lparr>exit_code = 0, state_file_after = Stored [], dispatched = NotAttempted,
      report = [], mode = None, uncaught = None\<rparr>"
  by (simp add: string_defs normalizer_defs run_defs example_defs)

section \<open>From the rows to the exit code\<close>

lemma deliver_failed:
  "dispatched (deliver cfg lib w f tp st rows ids) = SendFailed \<Longrightarrow>
   state_file_after (deliver cfg lib w f tp st rows ids) = state_file w"
  by (auto simp: deliver_def stop_def Let_def split: sum.splits if_splits)

lemma deliver_mode:
  "mode (deliver cfg lib w f tp st rows ids) = Some (if f then FULL else INCR)"
  by (simp add: deliver_def stop_def Let_def split: sum.splits)

lemma deliver_empty:
  "report (deliver cfg lib w f tp st rows ids) = [] \<Longrightarrow>
   exit_code (deliver cfg lib w f tp st rows ids) = 0 \<and>
   dispatched (deliver cfg lib w f tp st rows ids) = NotAttempted \<and>
   state_file_after (deliver cfg lib w f tp st rows ids) = state_file w"
  by (auto simp: deliver_def stop_def Let_def split: sum.splits if_splits)

lemma hour_21_window:
  "hour dt = 21 \<longleftrightarrow> 75600000000 \<le> dt mod 86400000000 \<and> dt mod 86400000000 < 79200000000"
proof -
  define h where "h = dt div 3600000000 mod 24"
  define r where "r = dt mod 3600000000"
  have "dt mod (3600000000 * 24) = 3600000000 * (dt div 3600000000 mod 24) + dt mod 3600000000"
    by (rule zmod_zmult2_eq) simp
  then have e: "dt mod 86400000000 = 3600000000 * h + r"
    by (simp add: h_def r_def)
  have r: "0 \<le> r" "r < 3600000000"
    by (simp_all add: r_def)
  have "hour dt = h" by (simp add: hour_def h_def)
  with e r show ?thesis by auto
qed

section \<open>Claims about the run\<close>

text \<open>C1. If the notification dispatch fails, the state file after the run is the state
  file before the run: no key is added, removed or modified, and the file is not
  rewritten.\<close>

theorem failed_dispatch_keeps_state:
  "dispatched (main cfg lib w) = SendFailed \<Longrightarrow> state_file_after (main cfg lib w) = state_file w"
  by (auto simp: main_def stop_def Let_def deliver_failed
           split: data_file.splits sum.splits prod.splits if_splits)

theorem failed_dispatch_keeps_state_witness:
  "dispatched (main cfg_live numeric_lib world_smtp_down) = SendFailed \<and>
   state_file_after (main cfg_live numeric_lib world_smtp_down) = state_file world_smtp_down"
proof -
  have h: "dispatched (main cfg_live numeric_lib world_smtp_down) = SendFailed"
    by (simp add: run_smtp_down)
  from failed_dispatch_keeps_state [OF h] h show ?thesis by simp
qed

text \<open>C3. A run whose dispatch is attempted and fails should exit non-zero. The run with
  a live configuration and a failing SMTP send reaches the last line of \<^verbatim>\<open>main\<close>
  and exits with code 0.\<close>

theorem failed_dispatch_exits_zero:
  "dispatched (main cfg_live numeric_lib world_smtp_down) = SendFailed \<and>
   exit_code (main cfg_live numeric_lib world_smtp_down) = 0"
  by (simp add: run_smtp_down)

text \<open>C6. With a non-empty prior state the run is FULL exactly when the UTC hour of the
  clock is 21, anywhere from 21:00:00 up to 22:00:00, and INCREMENTAL otherwise; with an
  empty prior state and seeding enabled it is FULL at any hour. The mode is a function
  of the clock and of the emptiness of the state alone.\<close>

theorem mode_decision:
  "data_file w = DataRows rows \<Longrightarrow>
   (load_state (state_file w) \<noteq> [] \<longrightarrow>
      mode (main cfg lib w) = Some (if hour (clock w) = 21 then FULL else INCR)) \<and>
   (load_state (state_file w) = [] \<and> FIRST_RUN_FULL cfg \<longrightarrow>
      mode (main cfg lib w) = Some FULL) \<and>
   (hour (clock w) = 21 \<longleftrightarrow>
      75600000000 \<le> clock w mod 86400000000 \<and> clock w mod 86400000000 < 79200000000)"
  using hour_21_window [of "clock w"]
  by (auto simp: main_def stop_def Let_def deliver_mode split: sum.splits prod.splits)

theorem mode_decision_witness:
  "data_file world_stale_key = DataRows [asset_a1] \<and>
   load_state (state_file world_stale_key) \<noteq> [] \<and> hour (clock world_stale_key) = 21 \<and>
   mode (main cfg_source numeric_lib world_stale_key) = Some FULL \<and>
   data_file world_unchanged = DataRows [asset_a1] \<and>
   load_state (state_file world_unchanged) \<noteq> [] \<and> hour (clock world_unchanged) = 23 \<and>
   mode (main cfg_source numeric_lib world_unchanged) = Some INCR \<and>
   data_file world_fresh = DataRows [asset_a1] \<and>
   load_state (state_file world_fresh) = [] \<and> FIRST_RUN_FULL cfg_source \<and>
   mode (main cfg_source numeric_lib world_fresh) = Some FULL"
proof -
  have d1: "data_file world_stale_key = DataRows [asset_a1]"
    and d2: "data_file world_unchanged = DataRows [asset_a1]"
    and d3: "data_file world_fresh = DataRows [asset_a1]"
    by (simp_all add: example_defs)
  have s1: "load_state (state_file world_stale_key) \<noteq> []"
    and s2: "load_state (state_file world_unchanged) \<noteq> []"
    and s3: "load_state (state_file world_fresh) = []"
    by (simp_all add: example_defs load_state_def)
  have h1: "hour (clock world_stale_key) = 21" and h2: "hour (clock world_unchanged) = 23"
    by (simp_all add: example_defs hour_def)
  have f: "FIRST_RUN_FULL cfg_source"
    by (simp add: example_defs)
  from mode_decision [OF d1, of cfg_source numeric_lib]
       mode_decision [OF d2, of cfg_source numeric_lib]
       mode_decision [OF d3, of cfg_source numeric_lib]
       d1 d2 d3 s1 s2 s3 h1 h2 f
  show ?thesis by simp
qed

text \<open>C7. With seeding disabled and no prior state the run sends nothing and exits
  with 0, and should leave a marker that stops the next run from seeing an empty state.
  The marker written is the empty dict, which the next run loads as an empty state:
  the second run repeats the first.\<close>

theorem seed_disabled_repeats:
  "exit_code (main cfg_no_seed numeric_lib world_fresh) = 0 \<and>
   dispatched (main cfg_no_seed numeric_lib world_fresh) = NotAttempted \<and>
   state_file_after (main cfg_no_seed numeric_lib world_fresh) = Stored [] \<and>
   load_state (state_file_after (main cfg_no_seed numeric_lib world_fresh)) = [] \<and>
   main cfg_no_seed numeric_lib
     (world_fresh\<lparr>state_file := state_file_after (main cfg_no_seed numeric_lib world_fresh)\<rparr>)
     = main cfg_no_seed numeric_lib world_fresh"
proof -
  have "main cfg_no_seed numeric_lib (world_fresh\<lparr>state_file := Stored []\<rparr>) =
        \<lparr>exit_code = 0, state_file_after = Stored [], dispatched = NotAttempted,
         report = [], mode = None, uncaught = None\<rparr>"
    by (simp add: string_defs normalizer_defs run_defs example_defs)
  then show ?thesis
    by (simp add: run_no_seed load_state_def)
qed

text \<open>C8. If reconciliation produces no report rows, the run is a successful no-op: no
  delivery is attempted, the state file is left as it was, and the exit code is 0.\<close>

theorem empty_report_is_noop:
  "mode (main cfg lib w) = Some m \<Longrightarrow> uncaught (main cfg lib w) = None \<Longrightarrow>
   report (main cfg lib w) = [] \<Longrightarrow>
   exit_code (main cfg lib w) = 0 \<and> dispatched (main cfg lib w) = NotAttempted \<and>
   state_file_after (main cfg lib w) = state_file w"
  by (auto simp: main_def stop_def Let_def deliver_empty
           split: data_file.splits sum.splits prod.splits if_splits)

theorem empty_report_is_noop_witness:
  "mode (main cfg_source numeric_lib world_unchanged) = Some INCR \<and>
   uncaught (main cfg_source numeric_lib world_unchanged) = None \<and>
   report (main cfg_source numeric_lib world_unchanged) = [] \<and>
   exit_code (main cfg_source numeric_lib world_unchanged) = 0 \<and>
   dispatched (main cfg_source numeric_lib world_unchanged) = NotAttempted \<and>
   state_file_after (main cfg_source numeric_lib world_unchanged) = state_file world_unchanged"
proof -
  have h: "mode (main cfg_source numeric_lib world_unchanged) = Some INCR"
    "uncaught (main cfg_source numeric_lib world_unchanged) = None"
    "report (main cfg_source numeric_lib world_unchanged) = []"
    by (simp_all add: run_unchanged)
  from empty_report_is_noop [OF h] h show ?thesis by simp
qed

section \<open>The normalizer and the classifier\<close>

lemma startswith_iff: "startswith s p \<longleftrightarrow> (\<exists>x. s = p @ x)"
proof
  assume "startswith s p"
  then have "take (length p) s = p" by (simp add: startswith_def)
  then have "s = p @ drop (length p) s"
    using append_take_drop_id [of "length p" s] by simp
  then show "\<exists>x. s = p @ x" ..
next
  assume "\<exists>x. s = p @ x"
  then show "startswith s p" by (auto simp: startswith_def)
qed

lemma contains_iff: "contains needle hay \<longleftrightarrow> (\<exists>u x. hay = u @ needle @ x)"
proof (induction hay)
  case Nil
  then show ?case by auto
next
  case (Cons c cs)
  show ?case
  proof
    assume "contains needle (c # cs)"
    then consider "startswith (c # cs) needle" | "contains needle cs" by auto
    then show "\<exists>u x. c # cs = u @ needle @ x"
    proof cases
      case 1
      then obtain x where "c # cs = needle @ x" unfolding startswith_iff ..
      then have "c # cs = [] @ needle @ x" by simp
      then show ?thesis by (intro exI)
    next
      case 2
      with Cons.IH obtain u x where "cs = u @ needle @ x" by auto
      then have "c # cs = (c # u) @ needle @ x" by simp
      then show ?thesis by (intro exI)
    qed
  next
    assume "\<exists>u x. c # cs = u @ needle @ x"
    then obtain u x where e: "c # cs = u @ needle @ x" by auto
    show "contains needle (c # cs)"
    proof (cases u)
      case Nil
      with e have "c # cs = needle @ x" by simp
      then have "startswith (c # cs) needle" unfolding startswith_iff ..
      then show ?thesis by simp
    next
      case (Cons d u')
      with e have "cs = u' @ needle @ x" by simp
      then have "\<exists>u x. cs = u @ needle @ x" by (intro exI)
      with Cons.IH have "contains needle cs" by simp
      then show ?thesis by simp
    qed
  qed
qed

lemma map_eq_infix:
  assumes "map f s = u @ n @ x"
  shows "\<exists>u' v x'. s = u' @ v @ x' \<and> map f v = n"
proof -
  from assms have "\<exists>u' r. s = u' @ r \<and> u = map f u' \<and> n @ x = map f r"
    by (simp only: map_eq_append_conv)
  then obtain u' r where s: "s = u' @ r" and r: "map f r = n @ x" by auto
  from r have "\<exists>v x'. r = v @ x' \<and> n = map f v \<and> x = map f x'"
    by (simp only: map_eq_append_conv)
  then obtain v x' where "r = v @ x'" and "map f v = n" by auto
  with s have "s = u' @ v @ x' \<and> map f v = n" by simp
  then show ?thesis by (intro exI)
qed

lemma contains_map_iff:
  "contains n (map f s) \<longleftrightarrow> (\<exists>u v x. s = u @ v @ x \<and> map f v = n)"
proof
  assume "contains n (map f s)"
  then have "\<exists>u x. map f s = u @ n @ x" by (simp only: contains_iff)
  then obtain u x where "map f s = u @ n @ x" by auto
  from map_eq_infix [OF this] show "\<exists>u v x. s = u @ v @ x \<and> map f v = n" .
next
  assume "\<exists>u v x. s = u @ v @ x \<and> map f v = n"
  then obtain u v x where s: "s = u @ v @ x" and v: "map f v = n" by auto
  have "map f s = map f u @ n @ map f x" by (simp add: s v)
  then have "\<exists>u x. map f s = u @ n @ x" by (intro exI)
  then show "contains n (map f s)" by (simp only: contains_iff)
qed

lemma in_progress_iff: "contains ''in progress'' (lower s) \<longleftrightarrow> mentions_in_progress s"
  unfolding lower_def mentions_in_progress_def by (rule contains_map_iff)

lemma hours_eq: "total_seconds (n - dt) / 3600 = age_hours n dt"
  by (simp add: total_seconds_def age_hours_def)

text \<open>C5. The classifier returns Warning for a non-empty status that contains
  "in progress" in any mix of cases, before any timestamp logic; otherwise, with an
  instant, Success up to 12 hours of age (negative ages included), Warning above 12 and
  up to 23, Failure above 23; and Failure without an instant.\<close>

theorem classifier_follows_spec:
  "(\<forall>d. parse_to_utc_datetime lib (lastSuccessfulBackupTimestamp r) = Inr d \<longrightarrow>
        compute_backup_status lib now_clock r = Inr (spec_classify (Status r) d now_clock)) \<and>
   (\<forall>s. Status r = Some s \<and> s \<noteq> [] \<and> mentions_in_progress s \<longrightarrow>
        compute_backup_status lib now_clock r = Inr Warning)"
  by (auto simp: compute_backup_status_def spec_classify_def in_progress_iff hours_eq Let_def
           split: option.splits sum.splits)

theorem classifier_follows_spec_witness:
  "parse_to_utc_datetime numeric_lib (lastSuccessfulBackupTimestamp asset_a1) =
     Inr (Some 1700000000000000) \<and>
   compute_backup_status numeric_lib at_23h asset_a1 = Inr Success \<and>
   spec_classify (Status asset_a1) (Some 1700000000000000) at_23h = Success \<and>
   Status (asset_a1\<lparr>Status := Some ''Backup In Progress''\<rparr>) = Some ''Backup In Progress'' \<and>
   mentions_in_progress ''Backup In Progress'' \<and>
   compute_backup_status numeric_lib at_23h (asset_a1\<lparr>Status := Some ''Backup In Progress''\<rparr>)
     = Inr Warning"
proof -
  have p: "parse_to_utc_datetime numeric_lib (lastSuccessfulBackupTimestamp asset_a1) =
           Inr (Some 1700000000000000)"
    by (simp add: normalizer_defs example_defs)
  have m: "mentions_in_progress ''Backup In Progress''"
    unfolding in_progress_iff [symmetric] by (simp add: string_defs)
  have s: "Status (asset_a1\<lparr>Status := Some ''Backup In Progress''\<rparr>) = Some ''Backup In Progress''"
    by simp
  have c: "spec_classify (Status asset_a1) (Some 1700000000000000) at_23h = Success"
    unfolding spec_classify_def in_progress_iff [symmetric]
    by (simp add: string_defs example_defs age_hours_def)
  note g = classifier_follows_spec
             [of numeric_lib asset_a1 at_23h, THEN conjunct1, THEN spec, THEN mp, OF p]
  note w = classifier_follows_spec
             [of numeric_lib "asset_a1\<lparr>Status := Some ''Backup In Progress''\<rparr>" at_23h,
              THEN conjunct2, THEN spec, THEN mp, of "''Backup In Progress''"]
  from p m s c g w show ?thesis by simp
qed

text \<open>C9. A numeric timestamp is read as epoch seconds unless its magnitude exceeds
  \<open>10\<^sup>1\<^sup>2\<close>, when it is divided by 1000. The comparison of line 86 is on the value,
  not on the magnitude: two trillion milliseconds before the epoch (the year 1906) are
  read as seconds, which no date holds.\<close>

theorem magnitude_rule_counterexample:
  "parse_to_utc_datetime numeric_lib (TsNum (- 2000000000000)) = Inr None \<and>
   fromtimestamp numeric_lib (seconds_by_magnitude (- 2000000000000)) =
     Some (- 2000000000000000)"
  by (simp add: normalizer_defs seconds_by_magnitude_def)

text \<open>C9, amended. A numeric timestamp within the double range is read as epoch seconds
  unless its value exceeds \<open>10\<^sup>1\<^sup>2\<close>, when it is divided by 1000; the same holds for
  a string of the digits 0 to 9. From \<open>-10\<^sup>1\<^sup>2\<close> upwards this is the rule by
  magnitude.\<close>

theorem value_rule:
  "(\<not> float_overflows x \<longrightarrow>
      parse_to_utc_datetime lib (TsNum x) = Inr (fromtimestamp lib (seconds_by_value x))) \<and>
   (isdigit (strip t) \<and> decimal_digits (strip t) \<and>
    \<not> float_overflows (real_of_int (int_of_digits (strip t))) \<longrightarrow>
      parse_to_utc_datetime lib (TsStr t) =
        Inr (fromtimestamp lib (seconds_by_value (real_of_int (int_of_digits (strip t)))))) \<and>
   (- (10 ^ 12) \<le> x \<longrightarrow> seconds_by_value x = seconds_by_magnitude x)"
  by (auto simp: parse_to_utc_datetime_def seconds_by_value_def seconds_by_magnitude_def
                 isdigit_def Let_def)

theorem value_rule_witness:
  "\<not> float_overflows 1700000000000 \<and>
   parse_to_utc_datetime numeric_lib (TsNum 1700000000000) = Inr (Some 1700000000000000) \<and>
   isdigit (strip ''1700000000'') \<and> decimal_digits (strip ''1700000000'') \<and>
   \<not> float_overflows (real_of_int (int_of_digits (strip ''1700000000''))) \<and>
   parse_to_utc_datetime numeric_lib (TsStr ''1700000000'') = Inr (Some 1700000000000000) \<and>
   - (10 ^ 12) \<le> (1700000000000 :: real) \<and>
   seconds_by_magnitude 1700000000000 = 1700000000"
proof -
  have a: "\<not> float_overflows 1700000000000"
    by (simp add: float_overflows_def)
  have b: "isdigit (strip ''1700000000'')" "decimal_digits (strip ''1700000000'')"
    by (simp_all add: string_defs)
  have n: "int_of_digits (strip ''1700000000'') = 1700000000"
    by (simp add: string_defs)
  have c: "\<not> float_overflows (real_of_int (int_of_digits (strip ''1700000000'')))"
    by (simp add: n float_overflows_def)
  have v: "fromtimestamp numeric_lib 1700000000 = Some 1700000000000000"
    by (simp add: normalizer_defs)
  from value_rule [of 1700000000000 numeric_lib "''1700000000''"] a b c n v
  show ?thesis by (simp add: seconds_by_value_def)
qed

section \<open>Rows that normalise\<close>

lemma epoch_seconds_parse:
  "epoch_seconds_or_none lib raw =
     (case parse_to_utc_datetime lib raw of
        Inl e \<Rightarrow> Inl e
      | Inr d \<Rightarrow> Inr (map_option (\<lambda>dt. py_int (timestamp dt)) d))"
  by (cases raw)
     (simp_all add: epoch_seconds_or_none_def parse_to_utc_datetime_def
               split: sum.splits option.splits)

lemma new_entry_normalises: "normalises lib r \<Longrightarrow> new_entry lib r = Inr (entry_of lib r)"
  by (simp add: normalises_def new_entry_def entry_of_def current_epoch_def epoch_seconds_parse
                Let_def split: sum.splits)

lemma new_entry_Inr: "new_entry lib r = Inr en \<Longrightarrow> normalises lib r"
  by (simp add: normalises_def new_entry_def epoch_seconds_parse split: sum.splits)

lemma compute_backup_status_normalises:
  "normalises lib r \<Longrightarrow> \<exists>h. compute_backup_status lib now_clock r = Inr h"
  by (simp add: normalises_def compute_backup_status_def Let_def split: sum.splits option.splits)

lemma build_csv_row_normalises:
  "normalises lib r \<Longrightarrow> \<exists>c. build_csv_row lib now_clock r = Inr c"
  using compute_backup_status_normalises [of lib r now_clock]
  by (auto simp: normalises_def build_csv_row_def Let_def split: sum.splits)



lemma send_flag_normalises:
  "normalises lib r \<Longrightarrow> send_flag lib st r = Inr (trimmed_send_flag lib st r)"
  by (auto simp: normalises_def send_flag_def trimmed_send_flag_def instant_advanced_def
                 current_epoch_def prior_status_def epoch_seconds_parse or_empty_def Let_def
           split: sum.splits option.splits)

lemma send_flag_Inr: "send_flag lib st r = Inr b \<Longrightarrow> normalises lib r"
  by (simp add: normalises_def send_flag_def epoch_seconds_parse Let_def split: sum.splits)

lemma incremental_row_Some:
  "incremental_row lib now_clock st r = Inr (Some c) \<longleftrightarrow>
     included lib st r \<and> build_csv_row lib now_clock r = Inr c"
proof (cases "normalises lib r")
  case True
  then show ?thesis
    by (auto simp: incremental_row_def included_def send_flag_normalises
             split: sum.splits bool.splits)
next
  case False
  then have "\<exists>e. send_flag lib st r = Inl e"
    using send_flag_Inr [of lib st r] by (cases "send_flag lib st r") auto
  with False show ?thesis
    by (auto simp: incremental_row_def included_def)
qed

lemma incremental_row_included:
  "included lib st r \<Longrightarrow> \<exists>c. incremental_row lib now_clock st r = Inr (Some c)"
  using build_csv_row_normalises [of lib r now_clock]
  by (auto simp: incremental_row_Some included_def)

lemma incremental_rows_eq:
  "\<exists>cs n. incremental_rows lib now_clock st rows =
            (cs, map asset_key (filter (included lib st) rows), n) \<and>
          map Inr cs = map (build_csv_row lib now_clock) (filter (included lib st) rows)"
proof (induction rows)
  case Nil
  then show ?case by simp
next
  case (Cons r rows)
  then obtain cs n where
    ih: "incremental_rows lib now_clock st rows =
           (cs, map asset_key (filter (included lib st) rows), n)"
        "map Inr cs = map (build_csv_row lib now_clock) (filter (included lib st) rows)"
    by blast
  show ?case
  proof (cases "included lib st r")
    case True
    then obtain c where c: "incremental_row lib now_clock st r = Inr (Some c)"
      using incremental_row_included by blast
    then have "build_csv_row lib now_clock r = Inr c"
      by (simp add: incremental_row_Some)
    with True c ih show ?thesis by simp
  next
    case False
    then have "\<And>c. incremental_row lib now_clock st r \<noteq> Inr (Some c)"
      by (simp add: incremental_row_Some)
    with False ih show ?thesis
      by (cases "incremental_row lib now_clock st r") (auto split: option.splits)
  qed
qed

section \<open>The state update\<close>


lemma update_full_frame:
  "update_full lib rs st = Inr st' \<Longrightarrow> k \<notin> asset_key ` set rs \<Longrightarrow>
   map_of st' k = map_of st k"
  by (induction rs arbitrary: st) (auto simp: update_conv' split: sum.splits)



lemma update_changed_frame:
  "update_changed lib ids rs st = Inr st' \<Longrightarrow> k \<notin> asset_key ` set rs \<Longrightarrow>
   map_of st' k = map_of st k"
  by (induction rs arbitrary: st) (auto simp: update_conv' split: sum.splits if_splits)

lemma update_changed_untouched:
  "update_changed lib ids rs st = Inr st' \<Longrightarrow> k \<notin> set ids \<Longrightarrow>
   map_of st' k = map_of st k"
  by (induction rs arbitrary: st) (auto simp: update_conv' split: sum.splits if_splits)

lemma update_changed_fresh:
  "update_changed lib ids rs st = Inr st' \<Longrightarrow> distinct (map asset_key rs) \<Longrightarrow>
   r \<in> set rs \<Longrightarrow> asset_key r \<in> set ids \<Longrightarrow>
   map_of st' (asset_key r) = Some (entry_of lib r)"
proof (induction rs arbitrary: st)
  case Nil
  then show ?case by simp
next
  case (Cons a rs)
  show ?case
  proof (cases "r = a")
    case True
    with Cons.prems(1,4) obtain en where
      en: "new_entry lib a = Inr en"
      and rest: "update_changed lib ids rs (AList.update (asset_key a) en st) = Inr st'"
      by (auto split: sum.splits)
    from en have e: "en = entry_of lib a"
      using new_entry_Inr [OF en] new_entry_normalises [of lib a] by simp
    from Cons.prems(2) have "asset_key a \<notin> asset_key ` set rs" by simp
    from update_changed_frame [OF rest this] e True show ?thesis
      by (simp add: update_conv')
  next
    case False
    with Cons.prems have r: "r \<in> set rs" "distinct (map asset_key rs)" by simp_all
    from Cons.prems(1) obtain st0 where "update_changed lib ids rs st0 = Inr st'"
      by (auto split: sum.splits if_splits)
    from Cons.IH [OF this r(2) r(1) Cons.prems(4)] show ?thesis .
  qed
qed

lemma update_changed_normalises:
  "\<forall>r\<in>set rs. asset_key r \<in> set ids \<longrightarrow> normalises lib r \<Longrightarrow>
   \<exists>st'. update_changed lib ids rs st = Inr st'"
  by (induction rs arbitrary: st) (auto simp: new_entry_normalises)

lemma included_keys_distinct:
  assumes "distinct (map asset_key rs)" and "r \<in> set rs"
  shows "asset_key r \<in> set (map asset_key (filter P rs)) \<longleftrightarrow> P r"
proof
  assume "asset_key r \<in> set (map asset_key (filter P rs))"
  then obtain r' where r': "r' \<in> set rs" "P r'" "asset_key r' = asset_key r" by auto
  from assms(1) have "inj_on asset_key (set rs)" by (simp add: distinct_map)
  with r' assms(2) have "r' = r" by (auto dest: inj_onD)
  with r' show "P r" by simp
next
  assume "P r"
  with assms(2) show "asset_key r \<in> set (map asset_key (filter P rs))" by auto
qed

lemma last_filter_Cons:
  "k \<in> f ` set rs \<Longrightarrow> last (filter (\<lambda>r. f r = k) (a # rs)) = last (filter (\<lambda>r. f r = k) rs)"
  by (auto simp: filter_empty_conv)

lemma update_changed_lookup:
  "update_changed lib ids rs st = Inr st' \<Longrightarrow>
   map_of st' k =
     (if k \<in> set ids \<and> k \<in> asset_key ` set rs
      then Some (entry_of lib (last (filter (\<lambda>r. asset_key r = k) rs)))
      else map_of st k)"
proof (induction rs arbitrary: st)
  case Nil
  then show ?case by simp
next
  case (Cons a rs)
  show ?case
  proof (cases "asset_key a \<in> set ids")
    case True
    with Cons.prems obtain en where
      en: "new_entry lib a = Inr en"
      and rest: "update_changed lib ids rs (AList.update (asset_key a) en st) = Inr st'"
      by (auto split: sum.splits)
    from en have e: "en = entry_of lib a"
      using new_entry_Inr [OF en] new_entry_normalises [of lib a] by simp
    note ih = Cons.IH [OF rest]
    show ?thesis
    proof (cases "k \<in> asset_key ` set rs")
      case in_rest: True
      from last_filter_Cons [OF in_rest, of a] ih in_rest True show ?thesis
        by (auto simp: update_conv')
    next
      case False
      then have fe: "filter (\<lambda>r. asset_key r = k) rs = []"
        unfolding filter_empty_conv by blast
      from False ih have "map_of st' k = map_of (AList.update (asset_key a) en st) k" by simp
      with False True e fe show ?thesis
        by (cases "k = asset_key a") (auto simp: update_conv')
    qed
  next
    case False
    with Cons.prems have rest: "update_changed lib ids rs st = Inr st'" by simp
    note ih = Cons.IH [OF rest]
    show ?thesis
    proof (cases "k \<in> asset_key ` set rs")
      case in_rest: True
      from last_filter_Cons [OF in_rest, of a] ih in_rest show ?thesis by simp
    next
      case nr: False
      with ih have "map_of st' k = map_of st k" by simp
      with nr False show ?thesis by auto
    qed
  qed
qed

section \<open>Runs that reach the decision\<close>

lemma deliver_report: "report (deliver cfg lib w f tp st rows ids) = rows"
  by (simp add: deliver_def stop_def Let_def split: sum.splits)

lemma deliver_data_file:
  "deliver cfg lib (w\<lparr>data_file := d\<rparr>) f tp st rows ids = deliver cfg lib w f tp st rows ids"
  by (simp add: deliver_def stop_def save_state_def Let_def split: sum.splits)

lemma deliver_committed:
  assumes "dispatched (deliver cfg lib w f tp st rows ids) \<in> {Sent, Simulated}"
    and "state_writable w"
    and "(if f then update_full lib tp st else update_changed lib ids tp st) = Inr st'"
  shows "state_file_after (deliver cfg lib w f tp st rows ids) = Stored st'"
  using assms
  by (auto simp: deliver_def stop_def save_state_def Let_def split: if_splits)

lemma deliver_frame:
  assumes "k \<notin> asset_key ` set tp"
  shows "map_of (load_state (state_file_after (deliver cfg lib w f tp (load_state (state_file w)) rows ids))) k
         = map_of (load_state (state_file w)) k"
proof (cases "if f then update_full lib tp (load_state (state_file w))
              else update_changed lib ids tp (load_state (state_file w))")
  case (Inl e)
  then show ?thesis
    by (auto simp: deliver_def stop_def Let_def split: if_splits)
next
  case (Inr st')
  then have "map_of st' k = map_of (load_state (state_file w)) k"
    using assms update_full_frame [of lib tp _ st' k] update_changed_frame [of lib ids tp _ st' k]
    by (auto split: if_splits)
  with Inr show ?thesis
    by (auto simp: deliver_def stop_def save_state_def load_state_def Let_def split: if_splits)
qed

lemma main_decided:
  assumes "data_file w = DataRows rows"
    and "\<not> (load_state (state_file w) = [] \<and> \<not> FIRST_RUN_FULL cfg)"
  shows "main cfg lib w =
     (let st = load_state (state_file w);
          f = (st = [] \<or> hour (clock w) = 21)
      in case reconcile lib (clock w) st f (to_process_of cfg rows) of
           Inl e \<Rightarrow> (stop w 1 (Some (if f then FULL else INCR)) [])\<lparr>uncaught := Some e\<rparr>
         | Inr (rows_for_csv, changed_asset_ids) \<Rightarrow>
             deliver cfg lib w f (to_process_of cfg rows) st rows_for_csv changed_asset_ids)"
  using assms by (auto simp: main_def Let_def split: sum.splits)

lemma mode_Some_decided:
  assumes "data_file w = DataRows rows" and "mode (main cfg lib w) = Some m"
  shows "\<not> (load_state (state_file w) = [] \<and> \<not> FIRST_RUN_FULL cfg)"
  using assms by (auto simp: main_def stop_def Let_def split: if_splits)

lemma mode_Some_is_full:
  assumes "data_file w = DataRows rows" and "mode (main cfg lib w) = Some m"
  shows "m = (if load_state (state_file w) = [] \<or> hour (clock w) = 21 then FULL else INCR)"
  using assms(2) main_decided [OF assms(1) mode_Some_decided [OF assms]]
  by (auto simp: Let_def stop_def deliver_mode split: sum.splits if_splits)

lemma build_csv_rows_map:
  "build_csv_rows lib now_clock rs = Inr cs \<Longrightarrow> map Inr cs = map (build_csv_row lib now_clock) rs"
  by (induction rs arbitrary: cs) (auto split: sum.splits)


lemma incr_run:
  assumes d: "data_file w = DataRows rows" and m: "mode (main cfg lib w) = Some INCR"
  shows "\<exists>cs. map Inr cs = map (build_csv_row lib (clock w))
                  (filter (included lib (load_state (state_file w))) (to_process_of cfg rows)) \<and>
           main cfg lib w =
             deliver cfg lib w False (to_process_of cfg rows) (load_state (state_file w)) cs
               (map asset_key
                  (filter (included lib (load_state (state_file w))) (to_process_of cfg rows)))"
proof -
  let ?st = "load_state (state_file w)" and ?tp = "to_process_of cfg rows"
  have f: "\<not> (?st = [] \<or> hour (clock w) = 21)"
    using mode_Some_is_full [OF d m] by (auto split: if_splits)
  note md = main_decided [OF d mode_Some_decided [OF d m], of lib]
  from incremental_rows_eq [of lib "clock w" ?st ?tp] obtain cs n where
    i: "incremental_rows lib (clock w) ?st ?tp =
          (cs, map asset_key (filter (included lib ?st) ?tp), n)"
    and c: "map Inr cs = map (build_csv_row lib (clock w)) (filter (included lib ?st) ?tp)"
    by blast
  from f md i have
    "main cfg lib w = deliver cfg lib w False ?tp ?st cs
                        (map asset_key (filter (included lib ?st) ?tp))"
    by (simp add: Let_def reconcile_def)
  with c show ?thesis by blast
qed

lemma main_frame:
  assumes d: "data_file w = DataRows rows" and k: "k \<notin> asset_key ` set (to_process_of cfg rows)"
  shows "map_of (load_state (state_file_after (main cfg lib w))) k
         = map_of (load_state (state_file w)) k"
proof (cases "load_state (state_file w) = [] \<and> \<not> FIRST_RUN_FULL cfg")
  case True
  with d show ?thesis
    by (simp add: main_def stop_def save_state_def load_state_def Let_def)
next
  case False
  note md = main_decided [OF d False, of lib]
  show ?thesis
  proof (cases "reconcile lib (clock w) (load_state (state_file w))
                  (load_state (state_file w) = [] \<or> hour (clock w) = 21) (to_process_of cfg rows)")
    case (Inl e)
    with md show ?thesis by (simp add: Let_def stop_def)
  next
    case (Inr p)
    with md deliver_frame [OF k] show ?thesis
      by (cases p) (simp add: Let_def)
  qed
qed

lemma report_rows:
  assumes d: "data_file w = DataRows rows" and c: "c \<in> set (report (main cfg lib w))"
  shows "\<exists>r\<in>set (to_process_of cfg rows). build_csv_row lib (clock w) r = Inr c"
proof (cases "load_state (state_file w) = [] \<and> \<not> FIRST_RUN_FULL cfg")
  case True
  with d c show ?thesis by (simp add: main_def stop_def Let_def)
next
  case False
  let ?st = "load_state (state_file w)" and ?tp = "to_process_of cfg rows"
  let ?f = "?st = [] \<or> hour (clock w) = 21"
  note md = main_decided [OF d False, of lib]
  show ?thesis
  proof (cases "reconcile lib (clock w) ?st ?f ?tp")
    case (Inl e)
    with md c show ?thesis by (simp add: Let_def stop_def)
  next
    case (Inr p)
    obtain cs ids where p: "p = (cs, ids)" by (cases p)
    with Inr md have "report (main cfg lib w) = cs"
      by (simp add: Let_def deliver_report)
    with c have cin: "c \<in> set cs" by simp
    have "\<exists>rs. set rs \<subseteq> set ?tp \<and> map Inr cs = map (build_csv_row lib (clock w)) rs"
    proof (cases ?f)
      case True
      with Inr p have "build_csv_rows lib (clock w) ?tp = Inr cs"
        by (auto simp: reconcile_def split: sum.splits)
      from build_csv_rows_map [OF this] show ?thesis by blast
    next
      case False
      from incremental_rows_eq [of lib "clock w" ?st ?tp] False Inr p
      have "map Inr cs = map (build_csv_row lib (clock w)) (filter (included lib ?st) ?tp)"
        by (auto simp: reconcile_def)
      moreover have "set (filter (included lib ?st) ?tp) \<subseteq> set ?tp" by simp
      ultimately show ?thesis by blast
    qed
    then obtain rs where rs: "set rs \<subseteq> set ?tp"
      and e: "map Inr cs = map (build_csv_row lib (clock w)) rs" by blast
    from cin have "Inr c \<in> set (map Inr cs :: (exn + csv_row) list)" by simp
    with e have "Inr c \<in> set (map (build_csv_row lib (clock w)) rs)" by simp
    then obtain r where "r \<in> set rs" "build_csv_row lib (clock w) r = Inr c" by auto
    with rs show ?thesis by auto
  qed
qed

lemma deliver_uncaught:
  assumes "dispatched (deliver cfg lib w f tp st rows ids) \<in> {Sent, Simulated}"
    and "uncaught (deliver cfg lib w f tp st rows ids) = None"
  shows "\<exists>st'. (if f then update_full lib tp st else update_changed lib ids tp st) = Inr st'"
  using assms
  by (cases "if f then update_full lib tp st else update_changed lib ids tp st")
     (auto simp: deliver_def stop_def Let_def split: if_splits)

section \<open>Claims about the committed state\<close>




section \<open>Claims about the incremental report\<close>

text \<open>C4. In INCREMENTAL mode an asset should be reported exactly when its instant
  advanced or its non-empty raw status differs from the stored one. The run trims the
  status before it compares: with \<open>A1\<close> stored at the same instant with status
  \<open>Online\<close>, the raw status \<open>Online\<close> with a leading blank differs from the stored
  one, and the run reports nothing and leaves the state file as it was.\<close>

theorem raw_status_counterexample:
  "data_file world_padded = DataRows [asset_a1_padded] \<and>
   mode (main cfg_source numeric_lib world_padded) = Some INCR \<and>
   spec_send_flag numeric_lib (load_state (state_file world_padded)) asset_a1_padded \<and>
   report (main cfg_source numeric_lib world_padded) = [] \<and>
   state_file_after (main cfg_source numeric_lib world_padded) = state_file world_padded"
proof -
  have d: "data_file world_padded = DataRows [asset_a1_padded]"
    and f: "state_file world_padded = Stored [(''A1'', entry_a1)]"
    by (simp_all add: example_defs)
  have p: "spec_send_flag numeric_lib [(''A1'', entry_a1)] asset_a1_padded"
    by (simp add: spec_send_flag_def prior_status_def asset_key_def or_empty_def example_defs)
  show ?thesis
    unfolding run_padded by (simp add: d f p load_state_def)
qed

text \<open>C4, amended. In INCREMENTAL mode the rows of the report are, in order, the CSV
  rows of the assets whose timestamp normalises without an error and for which (a) the
  instant advanced (there is an instant, and the prior entry or its instant is absent, or
  the instant is strictly newer), or (b) the status, trimmed of surrounding whitespace,
  is non-empty and differs from the stored status, a missing one read as empty. The send
  flag of the run is true for exactly these assets. The state delta of a committed run
  holds exactly their identifiers: each of these keys gets the entry of the last
  processed row that carries it, and every other key keeps its entry. With identifiers
  unique within the fetch that is the asset's own fresh entry, and the entry of every
  other processed asset stays as it was. An asset stored at \<open>T1\<close> and observed at a
  later \<open>T2\<close> is one of the reported assets.\<close>

theorem incremental_inclusion:
  assumes "data_file w = DataRows rows"
    and "mode (main cfg lib w) = Some INCR"
  shows "map Inr (report (main cfg lib w)) =
           map (build_csv_row lib (clock w))
             (filter (included lib (load_state (state_file w))) (to_process_of cfg rows)) \<and>
         (\<forall>r. send_flag lib (load_state (state_file w)) r = Inr True \<longleftrightarrow>
              included lib (load_state (state_file w)) r) \<and>
         (dispatched (main cfg lib w) \<in> {Sent, Simulated} \<and> state_writable w \<and>
          uncaught (main cfg lib w) = None \<longrightarrow>
            (\<forall>k. map_of (load_state (state_file_after (main cfg lib w))) k =
               (if k \<in> asset_key `
                       set (filter (included lib (load_state (state_file w)))
                              (to_process_of cfg rows))
                then Some (entry_of lib
                             (last (filter (\<lambda>r. asset_key r = k) (to_process_of cfg rows))))
                else map_of (load_state (state_file w)) k))) \<and>
         (dispatched (main cfg lib w) \<in> {Sent, Simulated} \<and> state_writable w \<and>
          distinct (map asset_key (to_process_of cfg rows)) \<longrightarrow>
            (\<forall>r\<in>set (to_process_of cfg rows).
               map_of (load_state (state_file_after (main cfg lib w))) (asset_key r) =
               (if included lib (load_state (state_file w)) r then Some (entry_of lib r)
                else map_of (load_state (state_file w)) (asset_key r)))) \<and>
         (\<forall>r en t1 t2.
            map_of (load_state (state_file w)) (asset_key r) = Some en \<and> ts en = Some t1 \<and>
            epoch_seconds_or_none lib (lastSuccessfulBackupTimestamp r) = Inr (Some t2) \<and>
            t1 < t2 \<longrightarrow> included lib (load_state (state_file w)) r)"
proof -
  let ?st = "load_state (state_file w)" and ?tp = "to_process_of cfg rows"
  let ?ids = "map asset_key (filter (included lib ?st) ?tp)"
  from incr_run [OF assms] obtain cs where
    c: "map Inr cs = map (build_csv_row lib (clock w)) (filter (included lib ?st) ?tp)"
    and r: "main cfg lib w = deliver cfg lib w False ?tp ?st cs ?ids"
    by blast
  have one: "map Inr (report (main cfg lib w)) =
               map (build_csv_row lib (clock w)) (filter (included lib ?st) ?tp)"
    using c r by (simp add: deliver_report)
  have two: "send_flag lib ?st r = Inr True \<longleftrightarrow> included lib ?st r" for r
  proof (cases "normalises lib r")
    case True
    then show ?thesis by (simp add: send_flag_normalises included_def)
  next
    case False
    then show ?thesis using send_flag_Inr [of lib ?st r True] by (auto simp: included_def)
  qed
  have delta: "map_of (load_state (state_file_after (main cfg lib w))) k =
                 (if k \<in> asset_key ` set (filter (included lib ?st) ?tp)
                  then Some (entry_of lib (last (filter (\<lambda>r. asset_key r = k) ?tp)))
                  else map_of ?st k)"
    if s: "dispatched (main cfg lib w) \<in> {Sent, Simulated}" and wr: "state_writable w"
      and un: "uncaught (main cfg lib w) = None" for k
  proof -
    from s r have ds: "dispatched (deliver cfg lib w False ?tp ?st cs ?ids) \<in> {Sent, Simulated}"
      by simp
    from un r have "uncaught (deliver cfg lib w False ?tp ?st cs ?ids) = None"
      by simp
    from deliver_uncaught [OF ds this] obtain st' where
      u: "update_changed lib ?ids ?tp ?st = Inr st'" by auto
    from deliver_committed [OF ds wr] u r
    have "state_file_after (main cfg lib w) = Stored st'" by simp
    then have l: "load_state (state_file_after (main cfg lib w)) = st'"
      by (simp add: load_state_def)
    have sub: "k \<in> set ?ids \<Longrightarrow> k \<in> asset_key ` set ?tp" by auto
    have ids: "set ?ids = asset_key ` set (filter (included lib ?st) ?tp)" by simp
    from update_changed_lookup [OF u, of k] sub show ?thesis
      unfolding l ids [symmetric] by auto
  qed
  have three: "map_of (load_state (state_file_after (main cfg lib w))) (asset_key r) =
                 (if included lib ?st r then Some (entry_of lib r) else map_of ?st (asset_key r))"
    if s: "dispatched (main cfg lib w) \<in> {Sent, Simulated}" and wr: "state_writable w"
      and dist: "distinct (map asset_key ?tp)" and rin: "r \<in> set ?tp" for r
  proof -
    have keys: "asset_key x \<in> set ?ids \<longleftrightarrow> included lib ?st x" if "x \<in> set ?tp" for x
      using included_keys_distinct [OF dist that] .
    then have "\<forall>x\<in>set ?tp. asset_key x \<in> set ?ids \<longrightarrow> normalises lib x"
      by (simp add: included_def)
    from update_changed_normalises [OF this] obtain st' where
      u: "update_changed lib ?ids ?tp ?st = Inr st'" by blast
    from s r have "dispatched (deliver cfg lib w False ?tp ?st cs ?ids) \<in> {Sent, Simulated}"
      by simp
    from deliver_committed [OF this wr] u r
    have "state_file_after (main cfg lib w) = Stored st'" by simp
    then have l: "load_state (state_file_after (main cfg lib w)) = st'"
      by (simp add: load_state_def)
    show ?thesis
    proof (cases "included lib ?st r")
      case True
      with keys [OF rin] have "asset_key r \<in> set ?ids" by simp
      from update_changed_fresh [OF u dist rin this] True l show ?thesis by simp
    next
      case False
      with keys [OF rin] have "asset_key r \<notin> set ?ids" by simp
      from update_changed_untouched [OF u this] False l show ?thesis by simp
    qed
  qed
  have four: "included lib ?st r"
    if "map_of ?st (asset_key r) = Some en" "ts en = Some t1"
       "epoch_seconds_or_none lib (lastSuccessfulBackupTimestamp r) = Inr (Some t2)" "t1 < t2"
    for r en t1 t2
    using that
    by (auto simp: included_def normalises_def trimmed_send_flag_def instant_advanced_def
                   current_epoch_def epoch_seconds_parse split: sum.splits)
  from one two delta three four show ?thesis by blast
qed

theorem incremental_inclusion_witness:
  "data_file world_known = DataRows [asset_a1, asset_a2] \<and>
   mode (main cfg_source numeric_lib world_known) = Some INCR \<and>
   dispatched (main cfg_source numeric_lib world_known) \<in> {Sent, Simulated} \<and>
   state_writable world_known \<and>
   distinct (map asset_key (to_process_of cfg_source [asset_a1, asset_a2])) \<and>
   \<not> included numeric_lib (load_state (state_file world_known)) asset_a1 \<and>
   included numeric_lib (load_state (state_file world_known)) asset_a2 \<and>
   map Inr (report (main cfg_source numeric_lib world_known)) =
     [build_csv_row numeric_lib (clock world_known) asset_a2] \<and>
   map_of (load_state (state_file_after (main cfg_source numeric_lib world_known))) ''A1'' =
     Some entry_a1 \<and>
   map_of (load_state (state_file_after (main cfg_source numeric_lib world_known))) ''A2'' =
     Some (entry_of numeric_lib asset_a2) \<and>
   data_file world_duplicate = DataRows [asset_a1_newer, asset_a1_older] \<and>
   mode (main cfg_source numeric_lib world_duplicate) = Some INCR \<and>
   dispatched (main cfg_source numeric_lib world_duplicate) \<in> {Sent, Simulated} \<and>
   state_writable world_duplicate \<and>
   uncaught (main cfg_source numeric_lib world_duplicate) = None \<and>
   included numeric_lib (load_state (state_file world_duplicate)) asset_a1_newer \<and>
   \<not> included numeric_lib (load_state (state_file world_duplicate)) asset_a1_older \<and>
   map Inr (report (main cfg_source numeric_lib world_duplicate)) =
     [build_csv_row numeric_lib (clock world_duplicate) asset_a1_newer] \<and>
   map_of (load_state (state_file_after (main cfg_source numeric_lib world_duplicate))) ''A1'' =
     Some (entry_of numeric_lib asset_a1_older)"
proof -
  have d: "data_file world_known = DataRows [asset_a1, asset_a2]"
    and w: "state_writable world_known"
    and d2: "data_file world_duplicate = DataRows [asset_a1_newer, asset_a1_older]"
    and w2: "state_writable world_duplicate"
    by (simp_all add: example_defs)
  have m: "mode (main cfg_source numeric_lib world_known) = Some INCR"
    and s: "dispatched (main cfg_source numeric_lib world_known) \<in> {Sent, Simulated}"
    by (simp_all add: run_known)
  have m2: "mode (main cfg_source numeric_lib world_duplicate) = Some INCR"
    and s2: "dispatched (main cfg_source numeric_lib world_duplicate) \<in> {Sent, Simulated}"
    and u2: "uncaught (main cfg_source numeric_lib world_duplicate) = None"
    by (simp_all add: run_duplicate)
  have t: "to_process_of cfg_source [asset_a1, asset_a2] = [asset_a1, asset_a2]"
    and t2: "to_process_of cfg_source [asset_a1_newer, asset_a1_older] =
               [asset_a1_newer, asset_a1_older]"
    by (simp_all add: to_process_of_def cfg_source_def)
  have k: "asset_key asset_a1 = ''A1''" "asset_key asset_a2 = ''A2''"
    "asset_key asset_a1_newer = ''A1''" "asset_key asset_a1_older = ''A1''"
    by (simp_all add: asset_key_def or_empty_def example_defs)
  have b: "load_state (state_file world_known) = [(''A1'', entry_a1)]"
    and b2: "load_state (state_file world_duplicate) = [(''A1'', entry_a1)]"
    by (simp_all add: load_state_def example_defs)
  have i1: "\<not> included numeric_lib [(''A1'', entry_a1)] asset_a1"
    by (simp add: included_def normalises_def trimmed_send_flag_def instant_advanced_def
                  current_epoch_def prior_status_def asset_key_def string_defs normalizer_defs
                  example_defs)
  have i2: "included numeric_lib [(''A1'', entry_a1)] asset_a2"
    by (simp add: included_def normalises_def trimmed_send_flag_def instant_advanced_def
                  current_epoch_def prior_status_def asset_key_def string_defs normalizer_defs
                  example_defs)
  have i3: "included numeric_lib [(''A1'', entry_a1)] asset_a1_newer"
    by (simp add: included_def normalises_def trimmed_send_flag_def instant_advanced_def
                  current_epoch_def prior_status_def asset_key_def string_defs normalizer_defs
                  example_defs)
  have i4: "\<not> included numeric_lib [(''A1'', entry_a1)] asset_a1_older"
    by (simp add: included_def normalises_def trimmed_send_flag_def instant_advanced_def
                  current_epoch_def prior_status_def asset_key_def string_defs normalizer_defs
                  example_defs)
  have dist: "distinct (map asset_key [asset_a1, asset_a2])"
    by (simp add: k)
  note th = incremental_inclusion [OF d m, unfolded t b]
  from th [THEN conjunct1] i1 i2
  have c1: "map Inr (report (main cfg_source numeric_lib world_known)) =
              [build_csv_row numeric_lib (clock world_known) asset_a2]"
    by simp
  note c4 = th [THEN conjunct2, THEN conjunct2, THEN conjunct2, THEN conjunct1, THEN mp,
                OF conjI [OF s conjI [OF w dist]]]
  from c4 [THEN bspec, of asset_a1] i1
  have e1: "map_of (load_state (state_file_after (main cfg_source numeric_lib world_known))) ''A1'' =
              Some entry_a1"
    by (simp add: k)
  from c4 [THEN bspec, of asset_a2] i2
  have e2: "map_of (load_state (state_file_after (main cfg_source numeric_lib world_known))) ''A2'' =
              Some (entry_of numeric_lib asset_a2)"
    by (simp add: k)
  note th2 = incremental_inclusion [OF d2 m2, unfolded t2 b2]
  from th2 [THEN conjunct1] i3 i4
  have c2: "map Inr (report (main cfg_source numeric_lib world_duplicate)) =
              [build_csv_row numeric_lib (clock world_duplicate) asset_a1_newer]"
    by simp
  note c3 = th2 [THEN conjunct2, THEN conjunct2, THEN conjunct1, THEN mp,
                 OF conjI [OF s2 conjI [OF w2 u2]], THEN spec, of "''A1''"]
  from c3 i3 i4
  have e3: "map_of (load_state (state_file_after (main cfg_source numeric_lib world_duplicate))) ''A1'' =
              Some (entry_of numeric_lib asset_a1_older)"
    by (simp add: k)
  show ?thesis
    unfolding t b b2
    by (rule conjI d m s w dist i1 i2 c1 e1 e2 d2 m2 s2 w2 u2 i3 i4 c2 e3)+
qed

section \<open>Claims about the sample\<close>

lemma to_process_sample:
  "0 < SAMPLE_COUNT cfg \<Longrightarrow> to_process_of cfg rows = take (nat (SAMPLE_COUNT cfg)) rows"
  by (simp add: to_process_of_def slice_to_def)

lemma main_prefix:
  assumes "0 < SAMPLE_COUNT cfg" and "data_file w = DataRows rows"
  shows "main cfg lib (w\<lparr>data_file := DataRows (take (nat (SAMPLE_COUNT cfg)) rows)\<rparr>) = main cfg lib w"
proof -
  have t: "to_process_of cfg (take (nat (SAMPLE_COUNT cfg)) rows) = to_process_of cfg rows"
    using assms(1) by (simp add: to_process_sample)
  show ?thesis
    using assms(2)
    by (simp add: main_def t deliver_data_file stop_def save_state_def Let_def
             split: sum.splits prod.splits)
qed

text \<open>C10. With \<^verbatim>\<open>SAMPLE_COUNT\<close> above 0 only the first \<^verbatim>\<open>SAMPLE_COUNT\<close> rows
  of the data file are processed: the run is the run on that prefix, every row of the
  report is the CSV row of a row of the prefix, and every state key that is not the
  identifier of a row of the prefix keeps its entry, in either mode.\<close>

theorem sample_prefix_only:
  assumes "0 < SAMPLE_COUNT cfg" and "data_file w = DataRows rows"
  shows "main cfg lib w =
           main cfg lib (w\<lparr>data_file := DataRows (take (nat (SAMPLE_COUNT cfg)) rows)\<rparr>) \<and>
         (\<forall>c\<in>set (report (main cfg lib w)).
            \<exists>r\<in>set (take (nat (SAMPLE_COUNT cfg)) rows). build_csv_row lib (clock w) r = Inr c) \<and>
         (\<forall>k. k \<notin> asset_key ` set (take (nat (SAMPLE_COUNT cfg)) rows) \<longrightarrow>
              map_of (load_state (state_file_after (main cfg lib w))) k =
              map_of (load_state (state_file w)) k)"
  using main_prefix [OF assms, of lib] report_rows [OF assms(2), of _ cfg lib]
        main_frame [OF assms(2), of _ cfg lib]
  unfolding to_process_sample [OF assms(1)] by auto

theorem sample_prefix_only_witness:
  "0 < SAMPLE_COUNT cfg_sample \<and> data_file world_two_rows = DataRows [asset_a1, asset_a2] \<and>
   mode (main cfg_sample numeric_lib world_two_rows) = Some FULL \<and>
   main cfg_sample numeric_lib world_two_rows =
     main cfg_sample numeric_lib (world_two_rows\<lparr>data_file := DataRows [asset_a1]\<rparr>) \<and>
   ''A2'' \<notin> asset_key ` set [asset_a1] \<and>
   map_of (load_state (state_file_after (main cfg_sample numeric_lib world_two_rows))) ''A2'' = None"
proof -
  have p: "0 < SAMPLE_COUNT cfg_sample"
    and d: "data_file world_two_rows = DataRows [asset_a1, asset_a2]"
    by (simp_all add: example_defs)
  have t: "take (nat (SAMPLE_COUNT cfg_sample)) [asset_a1, asset_a2] = [asset_a1]"
    by (simp add: example_defs)
  have k: "''A2'' \<notin> asset_key ` set [asset_a1]"
    by (simp add: asset_key_def or_empty_def example_defs)
  have b: "map_of (load_state (state_file world_two_rows)) ''A2'' = None"
    by (simp add: load_state_def example_defs)
  have m: "mode (main cfg_sample numeric_lib world_two_rows) = Some FULL"
    by (simp add: run_sample)
  note th = sample_prefix_only [OF p d, of numeric_lib, unfolded t]
  note e = th [THEN conjunct1]
  from th [THEN conjunct2, THEN conjunct2, THEN spec, THEN mp, OF k] b
  have g: "map_of (load_state (state_file_after (main cfg_sample numeric_lib world_two_rows))) ''A2'' = None"
    by simp
  show ?thesis
    by (rule conjI p d m e k g)+
qed

end
